theory Spec2Isabelle
  imports Main
begin

section \<open>JavaScript values\<close>

text \<open>
  The values that reach \<^verbatim>\<open>H5PEditor.SemanticStructure\<close>: a field descriptor comes from
  a parsed \<^verbatim>\<open>semantics.json\<close>, so its properties are JSON values, or \<open>Undefined\<close>
  when the property is absent. The registry \<^verbatim>\<open>H5PEditor\<close> also holds constructor
  functions: \<open>Ctor c h\<close> is the widget class named \<open>c\<close>, whose instances carry the
  property \<^verbatim>\<open>helpText\<close> with value \<open>h\<close> (\<open>Undefined\<close> when they declare none) and the
  methods \<^verbatim>\<open>appendTo\<close> and \<^verbatim>\<open>remove\<close>.
  Numbers are integers here: the source compares a number with \<open>0\<close> only.
  An object is the list of its own properties, the first binding of a key being the one
  that counts.
\<close>

datatype jsval =
    Undefined
  | Null
  | Bool bool
  | Num int
  | Str string
  | Arr "jsval list"
  | Obj "(string \<times> jsval) list"
  | Ctor string jsval

datatype type_error =
    Thrown string
  | CannotReadProperty string
  | NotAConstructor

datatype error = TypeError type_error

text \<open>What \<^verbatim>\<open>if (v)\<close> and \<^verbatim>\<open>!v\<close> test.\<close>

fun truthy :: "jsval \<Rightarrow> bool" where
  "truthy Undefined = False"
| "truthy Null = False"
| "truthy (Bool b) = b"
| "truthy (Num n) = (n \<noteq> 0)"
| "truthy (Str s) = (s \<noteq> [])"
| "truthy (Arr xs) = True"
| "truthy (Obj kvs) = True"
| "truthy (Ctor c h) = True"

text \<open>\<^verbatim>\<open>v instanceof Array\<close>.\<close>

fun instanceof_Array :: "jsval \<Rightarrow> bool" where
  "instanceof_Array (Arr xs) = True"
| "instanceof_Array v = False"

text \<open>
  The property read \<^verbatim>\<open>v.k\<close>, for the two keys the source reads from a widget
  descriptor, \<^verbatim>\<open>name\<close> and \<^verbatim>\<open>label\<close>: reading from \<^verbatim>\<open>undefined\<close> or \<^verbatim>\<open>null\<close> throws
  a TypeError, an object yields the property or \<^verbatim>\<open>undefined\<close>, a function has a
  \<^verbatim>\<open>name\<close>, and no array, string, number or boolean has either property.
\<close>

fun get_prop :: "jsval \<Rightarrow> string \<Rightarrow> error + jsval" where
  "get_prop Undefined k = Inl (TypeError (CannotReadProperty k))"
| "get_prop Null k = Inl (TypeError (CannotReadProperty k))"
| "get_prop (Obj kvs) k = Inr (case map_of kvs k of Some v \<Rightarrow> v | None \<Rightarrow> Undefined)"
| "get_prop (Ctor c h) k = Inr (if k = ''name'' then Str c else Undefined)"
| "get_prop v k = Inr Undefined"

section \<open>The field descriptor, the registry and the field wrapper\<close>

text \<open>The properties of \<^verbatim>\<open>field\<close> that the source reads; \<open>Undefined\<close> when absent.\<close>

record field =
  f_name :: jsval
  f_label :: jsval
  f_description :: jsval
  f_type :: jsval
  f_widgets :: jsval

text \<open>
  The registry is the host's object \<^verbatim>\<open>H5PEditor\<close>, read by \<^verbatim>\<open>H5PEditor[name]\<close>: a
  function from the key value to the property found (\<open>Undefined\<close> when there is none).
  The conversion of the key to a property name is part of that lookup.
\<close>

type_synonym registry = "jsval \<Rightarrow> jsval"

text \<open>A live object made by \<^verbatim>\<open>new widget(self)\<close>.\<close>

record widget_inst =
  wi_id :: nat
  wi_class :: string
  wi_helpText :: jsval

text \<open>
  The text of a label: a value, or the host's translation
  \<^verbatim>\<open>H5PEditor.t(library, key)\<close>, which is not evaluated here.
\<close>

datatype label_text = Text jsval | Translated string string

text \<open>The elements the wrapper owns and appends to \<^verbatim>\<open>$wrapper\<close>.\<close>

datatype elem =
    LabelEl label_text
  | ErrorsEl
  | DescriptionEl
  | HelpTextEl

text \<open>
  Modelled from the spec: \<^verbatim>\<open>H5PEditor.createError\<close> is the host's helper
  (not in this file) "producing a display element from a message string"; \<open>ErrorEntry m\<close>
  is the one entry it renders for the message \<open>m\<close>.
\<close>

datatype error_entry = ErrorEntry jsval

definition createError :: "jsval \<Rightarrow> error_entry" where
  "createError message = ErrorEntry message"

text \<open>What the wrapper hands to the container given to \<^verbatim>\<open>appendTo\<close>.\<close>

datatype attached = WidgetSelectLabelEl | WidgetSelectEl | WrapperEl

text \<open>
  The calls that leave the wrapper, in the order they are made: on a widget instance
  (its construction, \<^verbatim>\<open>remove()\<close>, \<^verbatim>\<open>appendTo($wrapper)\<close>), on the event dispatcher
  (\<^verbatim>\<open>self.trigger\<close>), and on the container (\<^verbatim>\<open>x.appendTo($container)\<close>, with the
  container's identity).
\<close>

datatype effect =
    WidgetNew string nat
  | WidgetRemove nat
  | WidgetAppendTo nat
  | Trigger string
  | ContainerAppend "attached list" nat

text \<open>
  The state of one \<^verbatim>\<open>SemanticStructure\<close>: the properties of \<^verbatim>\<open>self\<close> that the
  source reads or writes (\<^verbatim>\<open>self.default\<close> is read and never written), the variables
  of the constructor's closure, and the log of outside calls with the counter that
  names the next widget instance.
  \<open>widgetSelect\<close> holds the options (value, text) of the select box,
  \<open>wrapper_children\<close> and \<open>errors_children\<close> the children of \<^verbatim>\<open>$wrapper\<close> and
  \<^verbatim>\<open>$errors\<close> put there by this file, \<open>wrapper_type\<close> the \<^verbatim>\<open>field.type\<close> that the
  wrapper's class \<^verbatim>\<open>'field ' + field.type\<close> is made of.
\<close>

record state =
  self_label :: jsval
  self_widget :: "widget_inst option"
  self_default :: jsval
  widgetSelect :: "(jsval \<times> jsval) list option"
  widgetSelectLabel :: "elem option"
  wrapper_type :: jsval
  wrapper_children :: "elem list"
  errors_children :: "error_entry list"
  description :: "jsval option"
  helpText :: jsval
  widgets :: "jsval list"
  events :: "effect list"
  next_id :: nat

section \<open>Widget resolution\<close>

definition getWidget :: "registry \<Rightarrow> jsval \<Rightarrow> jsval" where
  "getWidget H5PEditor name = H5PEditor name"

text \<open>
  The loop of \<^verbatim>\<open>getValidWidgets\<close> over \<^verbatim>\<open>field.widgets\<close>, from the entry at hand on;
  \<open>validWidgets\<close> is the list pushed so far.
\<close>

fun validWidgets_loop :: "registry \<Rightarrow> jsval list \<Rightarrow> jsval list \<Rightarrow> error + jsval list" where
  "validWidgets_loop H5PEditor [] validWidgets = Inr validWidgets"
| "validWidgets_loop H5PEditor (widget # rest) validWidgets =
     (case get_prop widget ''name'' of
        Inl e \<Rightarrow> Inl e
      | Inr name \<Rightarrow>
          if truthy (getWidget H5PEditor name)
          then validWidgets_loop H5PEditor rest (validWidgets @ [widget])
          else validWidgets_loop H5PEditor rest validWidgets)"

text \<open>
  \<^verbatim>\<open>getValidWidgets\<close>; \<open>self\<close> is the wrapper under construction, read for
  \<^verbatim>\<open>self.default\<close>.
\<close>

definition getValidWidgets :: "registry \<Rightarrow> field \<Rightarrow> jsval \<Rightarrow> state \<Rightarrow> error + jsval list" where
  "getValidWidgets H5PEditor field defaultWidget self =
     (if f_widgets field = Undefined then Inr [defaultWidget]
      else if \<not> instanceof_Array (f_widgets field)
      then Inl (TypeError (Thrown ''widgets must be an array''))
      else
        (case f_widgets field of
           Arr ws \<Rightarrow>
             (case validWidgets_loop H5PEditor ws [] of
                Inl e \<Rightarrow> Inl e
              | Inr validWidgets \<Rightarrow>
                  if validWidgets = [] then Inr (validWidgets @ [self_default self])
                  else Inr validWidgets)
         | _ \<Rightarrow> Inl (TypeError (Thrown ''widgets must be an array''))))"

section \<open>Construction\<close>

definition createLabel :: "label_text \<Rightarrow> elem" where
  "createLabel text = LabelEl text"

text \<open>
  The loop of \<^verbatim>\<open>init\<close> that fills the select box: one option per resolved widget,
  its value \<^verbatim>\<open>widget.name\<close> and its text \<^verbatim>\<open>widget.label\<close>.
\<close>

fun options_loop :: "jsval list \<Rightarrow> (jsval \<times> jsval) list \<Rightarrow> error + (jsval \<times> jsval) list" where
  "options_loop [] options = Inr options"
| "options_loop (widget # rest) options =
     (case get_prop widget ''name'' of
        Inl e \<Rightarrow> Inl e
      | Inr name \<Rightarrow>
          (case get_prop widget ''label'' of
             Inl e \<Rightarrow> Inl e
           | Inr label \<Rightarrow> options_loop rest (options @ [(name, label)])))"

text \<open>
  \<^verbatim>\<open>init\<close>, run last by the constructor on the object \<open>self\<close>. A throw leaves the
  constructor, so no object results.
\<close>

definition init :: "registry \<Rightarrow> field \<Rightarrow> jsval \<Rightarrow> state \<Rightarrow> error + state" where
  "init H5PEditor field defaultWidget self =
     (case getValidWidgets H5PEditor field defaultWidget self of
        Inl e \<Rightarrow> Inl e
      | Inr ws \<Rightarrow>
          (case (if 1 < length ws
                 then (case options_loop ws [] of
                         Inl e \<Rightarrow> Inl e
                       | Inr options \<Rightarrow>
                           Inr (Some (createLabel (Translated ''core'' ''editMode'')), Some options))
                 else Inr (None, None)) of
             Inl e \<Rightarrow> Inl e
           | Inr (selectLabel, select) \<Rightarrow>
               Inr (self
                 \<lparr> widgets := ws,
                   widgetSelectLabel := selectLabel,
                   widgetSelect := select,
                   wrapper_type := f_type field,
                   wrapper_children :=
                     (if f_label field \<noteq> Num 0 then [createLabel (Text (self_label self))] else []),
                   errors_children := [],
                   description :=
                     (if f_description field \<noteq> Undefined then Some (f_description field) else None),
                   helpText := Str [] \<rparr>)))"

text \<open>
  The object the constructor starts from: no property of \<^verbatim>\<open>self\<close> set (the event
  dispatcher sets neither \<^verbatim>\<open>widget\<close> nor \<^verbatim>\<open>default\<close>), every closure variable
  undefined, nothing called yet.
\<close>

definition new_self :: state where
  "new_self =
     \<lparr> self_label = Undefined, self_widget = None, self_default = Undefined,
       widgetSelect = None, widgetSelectLabel = None, wrapper_type = Undefined,
       wrapper_children = [], errors_children = [], description = None,
       helpText = Undefined, widgets = [], events = [], next_id = 0 \<rparr>"

definition SemanticStructure :: "registry \<Rightarrow> field \<Rightarrow> jsval \<Rightarrow> error + state" where
  "SemanticStructure H5PEditor field defaultWidget =
     init H5PEditor field defaultWidget
       (new_self \<lparr> self_label :=
          (if f_label field = Undefined then f_name field else f_label field) \<rparr>)"

section \<open>Operations\<close>

text \<open>
  \<^verbatim>\<open>x.appendTo($wrapper)\<close> for an element the wrapper owns: the element becomes the
  last child, leaving the place it had.
\<close>

definition wrapper_append :: "elem \<Rightarrow> state \<Rightarrow> state" where
  "wrapper_append x s = s \<lparr> wrapper_children := removeAll x (wrapper_children s) @ [x] \<rparr>"

definition emit :: "effect \<Rightarrow> state \<Rightarrow> state" where
  "emit e s = s \<lparr> events := events s @ [e] \<rparr>"

text \<open>
  \<^verbatim>\<open>changeWidget\<close>. A throw carries the state reached when it happened: the calls
  made before it stay made. The widget's constructor and methods and the listeners of
  the event are other code: the calls are logged, and taken to return without touching
  the wrapper.
\<close>

definition changeWidget :: "registry \<Rightarrow> jsval \<Rightarrow> state \<Rightarrow> (error \<times> state) + state" where
  "changeWidget H5PEditor name s =
     (let s1 = (case self_widget s of
                  None \<Rightarrow> s
                | Some old \<Rightarrow> emit (WidgetRemove (wi_id old)) s)
      in case getWidget H5PEditor name of
           Ctor c h \<Rightarrow>
             (let w = \<lparr> wi_id = next_id s1, wi_class = c, wi_helpText = h \<rparr>;
                  s2 = emit (WidgetNew c (wi_id w))
                         (s1 \<lparr> self_widget := Some w, next_id := Suc (next_id s1) \<rparr>);
                  s3 = emit (Trigger ''changeWidget'') s2;
                  s4 = emit (WidgetAppendTo (wi_id w)) s3;
                  s5 = wrapper_append ErrorsEl s4;
                  s6 = (case description s5 of
                          None \<Rightarrow> s5
                        | Some d \<Rightarrow> wrapper_append DescriptionEl s5);
                  s7 = s6 \<lparr> helpText :=
                         (if wi_helpText w \<noteq> Undefined then wi_helpText w else Str []) \<rparr>
              in Inr (wrapper_append HelpTextEl s7))
         | _ \<Rightarrow> Inl (TypeError NotAConstructor, s1))"

text \<open>
  The change handler of the select box: \<open>val\<close> is \<^verbatim>\<open>$widgetSelect.val()\<close>, the value
  of the option chosen.
\<close>

definition widgetSelect_change :: "registry \<Rightarrow> jsval \<Rightarrow> state \<Rightarrow> (error \<times> state) + state" where
  "widgetSelect_change H5PEditor val s = changeWidget H5PEditor val s"

text \<open>
  \<^verbatim>\<open>self.appendTo\<close>; the container is known by its identity. \<^verbatim>\<open>widgets[0]\<close> of an
  empty list is \<^verbatim>\<open>undefined\<close>.
\<close>

definition appendTo :: "registry \<Rightarrow> nat \<Rightarrow> state \<Rightarrow> (error \<times> state) + state" where
  "appendTo H5PEditor container s =
     (let s1 = (case widgetSelect s of
                  None \<Rightarrow> s
                | Some options \<Rightarrow>
                    emit (ContainerAppend [WidgetSelectLabelEl, WidgetSelectEl] container) s)
      in case get_prop (case widgets s1 of [] \<Rightarrow> Undefined | w # ws \<Rightarrow> w) ''name'' of
           Inl e \<Rightarrow> Inl (e, s1)
         | Inr name \<Rightarrow>
             (case changeWidget H5PEditor name s1 of
                Inl es \<Rightarrow> Inl es
              | Inr s2 \<Rightarrow> Inr (emit (ContainerAppend [WrapperEl] container) s2)))"

text \<open>\<^verbatim>\<open>self.remove\<close>: \<^verbatim>\<open>self.widget.remove()\<close>, whatever \<^verbatim>\<open>self.widget\<close> is.\<close>

definition remove_field :: "state \<Rightarrow> (error \<times> state) + state" where
  "remove_field s =
     (case self_widget s of
        None \<Rightarrow> Inl (TypeError (CannotReadProperty ''remove''), s)
      | Some w \<Rightarrow> Inr (emit (WidgetRemove (wi_id w)) s))"

definition setError :: "jsval \<Rightarrow> state \<Rightarrow> state" where
  "setError message s = s \<lparr> errors_children := errors_children s @ [createError message] \<rparr>"

definition clearErrors :: "state \<Rightarrow> state" where
  "clearErrors s = s \<lparr> errors_children := [] \<rparr>"

definition getName :: "field \<Rightarrow> jsval" where
  "getName field = f_name field"

section \<open>Active widget instances\<close>

text \<open>
  An instance is active from its construction to the call of its \<^verbatim>\<open>remove()\<close>.
  \<open>live ev\<close> lists the instances active after the calls \<open>ev\<close>; \<open>never_two ev\<close> says
  that at most one was active before the first call and after each call of \<open>ev\<close>.
\<close>

fun live_step :: "nat list \<Rightarrow> effect \<Rightarrow> nat list" where
  "live_step l (WidgetNew c i) = l @ [i]"
| "live_step l (WidgetRemove i) = removeAll i l"
| "live_step l e = l"

definition live :: "effect list \<Rightarrow> nat list" where
  "live ev = foldl live_step [] ev"

fun never_two_from :: "nat list \<Rightarrow> effect list \<Rightarrow> bool" where
  "never_two_from l [] = (length l \<le> 1)"
| "never_two_from l (e # es) = (length l \<le> 1 \<and> never_two_from (live_step l e) es)"

definition never_two :: "effect list \<Rightarrow> bool" where
  "never_two ev = never_two_from [] ev"

text \<open>
  The wrapper's invariant: never two active instances so far, and an instance still
  active is \<^verbatim>\<open>self.widget\<close>.
\<close>

definition inv_active :: "state \<Rightarrow> bool" where
  "inv_active s =
     (never_two (events s) \<and>
      (case self_widget s of
         None \<Rightarrow> live (events s) = []
       | Some w \<Rightarrow> live (events s) = [] \<or> live (events s) = [wi_id w]))"

section \<open>Notions used to state the properties\<close>

text \<open>
  A declared candidate resolves when its \<^verbatim>\<open>name\<close> can be read and the registry holds
  something truthy under it: the test \<^verbatim>\<open>if (getWidget(widget.name))\<close>.
\<close>

definition resolves :: "registry \<Rightarrow> jsval \<Rightarrow> bool" where
  "resolves H5PEditor widget =
     (case get_prop widget ''name'' of
        Inl e \<Rightarrow> False
      | Inr name \<Rightarrow> truthy (getWidget H5PEditor name))"

text \<open>The values a property can be read from without a throw.\<close>

definition readable :: "jsval \<Rightarrow> bool" where
  "readable v = (v \<noteq> Undefined \<and> v \<noteq> Null)"

text \<open>
  The calls of one widget change from the state \<open>s\<close> to the class \<open>c\<close>, and the
  call that hands the selector to the container.
\<close>

definition change_events :: "state \<Rightarrow> string \<Rightarrow> effect list" where
  "change_events s c =
     (case self_widget s of None \<Rightarrow> [] | Some old \<Rightarrow> [WidgetRemove (wi_id old)]) @
     [WidgetNew c (next_id s), Trigger ''changeWidget'', WidgetAppendTo (next_id s)]"

definition select_events :: "state \<Rightarrow> nat \<Rightarrow> effect list" where
  "select_events s container =
     (case widgetSelect s of
        None \<Rightarrow> []
      | Some options \<Rightarrow> [ContainerAppend [WidgetSelectLabelEl, WidgetSelectEl] container])"

text \<open>\<^verbatim>\<open>new v(self)\<close> constructs only when \<open>v\<close> is a constructor.\<close>

fun is_Ctor :: "jsval \<Rightarrow> bool" where
  "is_Ctor (Ctor c h) = True"
| "is_Ctor v = False"

text \<open>
  The state an operation leaves, whether it returned or threw; the number of
  \<^verbatim>\<open>changeWidget\<close> events that one widget change adds to the log; and what is seen of
  an operation from outside: the error thrown if any, the log, and \<^verbatim>\<open>self.widget\<close>.
\<close>

definition final_state :: "(error \<times> state) + state \<Rightarrow> state" where
  "final_state r = (case r of Inl (e, s') \<Rightarrow> s' | Inr s' \<Rightarrow> s')"

definition changeWidget_triggers :: "registry \<Rightarrow> jsval \<Rightarrow> state \<Rightarrow> nat" where
  "changeWidget_triggers H5PEditor name s =
     count_list (drop (length (events s)) (events (final_state (changeWidget H5PEditor name s))))
       (Trigger ''changeWidget'')"

definition outcome :: "(error \<times> state) + state \<Rightarrow> error option \<times> effect list \<times> widget_inst option" where
  "outcome r =
     (case r of
        Inl (e, s') \<Rightarrow> (Some e, events s', self_widget s')
      | Inr s' \<Rightarrow> (None, events s', self_widget s'))"

section \<open>Sample descriptors\<close>

text \<open>
  A registry with the widget classes \<^verbatim>\<open>text\<close> and \<^verbatim>\<open>html\<close>, three widget
  descriptors (the third names no registered class), and the descriptor of a field
  \<^verbatim>\<open>title\<close> with a given \<^verbatim>\<open>label\<close> and \<^verbatim>\<open>widgets\<close>.
\<close>

definition ex_registry :: registry where
  "ex_registry name =
     (if name = Str ''text'' then Ctor ''text'' Undefined
      else if name = Str ''html'' then Ctor ''html'' (Str ''Use the toolbar'')
      else Undefined)"

definition ex_default :: jsval where
  "ex_default = Obj [(''name'', Str ''text''), (''label'', Str ''Text'')]"

definition ex_html :: jsval where
  "ex_html = Obj [(''name'', Str ''html''), (''label'', Str ''Html'')]"

definition ex_nope :: jsval where
  "ex_nope = Obj [(''name'', Str ''nope''), (''label'', Str ''Nope'')]"

definition ex_field :: "jsval \<Rightarrow> jsval \<Rightarrow> field" where
  "ex_field label ws =
     \<lparr> f_name = Str ''title'', f_label = label, f_description = Undefined,
       f_type = Str ''text'', f_widgets = ws \<rparr>"

section \<open>Reading properties and resolving widgets\<close>

lemma get_prop_readable: "(\<exists>v. get_prop w k = Inr v) = readable w"
  by (cases w) (simp_all add: readable_def)

lemma get_prop_Inl: "get_prop w k = Inl e \<Longrightarrow> \<not> readable w"
  by (cases w) (simp_all add: readable_def)

lemma resolves_Inr: "get_prop w ''name'' = Inr n \<Longrightarrow> resolves H w = truthy (getWidget H n)"
  by (simp add: resolves_def)

lemma resolves_readable: "resolves H w \<Longrightarrow> readable w"
  using get_prop_readable by (fastforce simp: resolves_def split: sum.splits)

lemma validWidgets_loop_Inr:
  "validWidgets_loop H ws acc = Inr vs \<Longrightarrow>
     vs = acc @ filter (resolves H) ws \<and> list_all readable ws"
proof (induction ws arbitrary: acc)
  case Nil
  then show ?case by simp
next
  case (Cons w ws)
  then obtain n where n: "get_prop w ''name'' = Inr n"
    by (auto split: sum.splits)
  then have r: "readable w" using get_prop_readable by blast
  show ?case
  proof (cases "truthy (getWidget H n)")
    case True
    with Cons.prems n have "validWidgets_loop H ws (acc @ [w]) = Inr vs" by simp
    from Cons.IH [OF this] True n r show ?thesis by (simp add: resolves_Inr)
  next
    case False
    with Cons.prems n have "validWidgets_loop H ws acc = Inr vs" by simp
    from Cons.IH [OF this] False n r show ?thesis by (simp add: resolves_Inr)
  qed
qed

lemma validWidgets_loop_readable:
  "list_all readable ws \<Longrightarrow> validWidgets_loop H ws acc = Inr (acc @ filter (resolves H) ws)"
proof (induction ws arbitrary: acc)
  case Nil
  then show ?case by simp
next
  case (Cons w ws)
  then have "readable w" by simp
  then obtain n where n: "get_prop w ''name'' = Inr n"
    using get_prop_readable by blast
  with Cons show ?case by (simp add: resolves_Inr)
qed

lemma validWidgets_loop_Inl:
  "validWidgets_loop H ws acc = Inl e \<Longrightarrow> \<not> list_all readable ws \<and> e = TypeError (CannotReadProperty ''name'')"
proof (induction ws arbitrary: acc)
  case Nil
  then show ?case by simp
next
  case (Cons w ws)
  show ?case
  proof (cases "get_prop w ''name''")
    case (Inl a)
    with Cons.prems have "e = a" by simp
    moreover from Inl have "\<not> readable w" by (rule get_prop_Inl)
    moreover from Inl have "a = TypeError (CannotReadProperty ''name'')" by (cases w) simp_all
    ultimately show ?thesis by simp
  next
    case (Inr n)
    with Cons show ?thesis by (auto split: if_splits)
  qed
qed

lemma options_loop_readable:
  "list_all readable ws \<Longrightarrow>
     \<exists>opts. options_loop ws acc = Inr (acc @ opts) \<and>
       map (\<lambda>p. Inr (fst p)) opts = map (\<lambda>w. get_prop w ''name'') ws \<and>
       map (\<lambda>p. Inr (snd p)) opts = map (\<lambda>w. get_prop w ''label'') ws"
proof (induction ws arbitrary: acc)
  case Nil
  then show ?case by simp
next
  case (Cons w ws)
  then have "readable w" by simp
  then obtain n l where n: "get_prop w ''name'' = Inr n" and l: "get_prop w ''label'' = Inr l"
    using get_prop_readable by blast
  from Cons obtain opts where o: "options_loop ws (acc @ [(n, l)]) = Inr ((acc @ [(n, l)]) @ opts)"
     "map (\<lambda>p. Inr (fst p)) opts = map (\<lambda>w. get_prop w ''name'') ws"
     "map (\<lambda>p. Inr (snd p)) opts = map (\<lambda>w. get_prop w ''label'') ws"
    by fastforce
  show ?case
    by (rule exI [of _ "(n, l) # opts"]) (use o in \<open>simp add: n l\<close>)
qed

lemma getValidWidgets_undefined:
  "f_widgets f = Undefined \<Longrightarrow> getValidWidgets H f dw self = Inr [dw]"
  by (simp add: getValidWidgets_def)

lemma getValidWidgets_not_array:
  "f_widgets f \<noteq> Undefined \<Longrightarrow> \<not> instanceof_Array (f_widgets f) \<Longrightarrow>
     getValidWidgets H f dw self = Inl (TypeError (Thrown ''widgets must be an array''))"
  by (simp add: getValidWidgets_def)

lemma getValidWidgets_array:
  "f_widgets f = Arr ws \<Longrightarrow> list_all readable ws \<Longrightarrow>
     getValidWidgets H f dw self =
       Inr (if filter (resolves H) ws = [] then [self_default self] else filter (resolves H) ws)"
  by (simp add: getValidWidgets_def validWidgets_loop_readable)

lemma getValidWidgets_array_Inr:
  assumes "f_widgets f = Arr ws" and "getValidWidgets H f dw self = Inr vs"
  shows "list_all readable ws \<and>
     vs = (if filter (resolves H) ws = [] then [self_default self] else filter (resolves H) ws)"
proof -
  from assms obtain vs' where l: "validWidgets_loop H ws [] = Inr vs'"
    by (auto simp: getValidWidgets_def split: sum.splits)
  from validWidgets_loop_Inr [OF l] have r: "list_all readable ws" by simp
  with assms getValidWidgets_array [of f ws H dw self] show ?thesis by simp
qed

lemma getValidWidgets_Inr_cases:
  assumes "getValidWidgets H f dw self = Inr vs"
  shows "(f_widgets f = Undefined \<and> vs = [dw]) \<or>
         (\<exists>ws. f_widgets f = Arr ws \<and> list_all readable ws \<and>
            vs = (if filter (resolves H) ws = [] then [self_default self] else filter (resolves H) ws))"
proof (cases "f_widgets f = Undefined")
  case True
  with assms show ?thesis by (simp add: getValidWidgets_undefined)
next
  case False
  with assms obtain ws where ws: "f_widgets f = Arr ws"
    by (cases "f_widgets f") (simp_all add: getValidWidgets_def)
  from getValidWidgets_array_Inr [OF ws assms] ws show ?thesis by simp
qed

lemma getValidWidgets_nonempty: "getValidWidgets H f dw self = Inr vs \<Longrightarrow> vs \<noteq> []"
  by (drule getValidWidgets_Inr_cases) (auto split: if_splits)

lemma getValidWidgets_long_readable:
  assumes "getValidWidgets H f dw self = Inr vs" and "1 < length vs"
  shows "list_all readable vs"
proof -
  from getValidWidgets_Inr_cases [OF assms(1)] assms(2)
  obtain ws where "vs = filter (resolves H) ws"
    by (auto split: if_splits)
  then show ?thesis
    by (auto simp: list_all_iff dest: resolves_readable)
qed

section \<open>What the constructor builds\<close>

lemma init_Inr:
  assumes "getValidWidgets H f dw self = Inr vs"
  shows "\<exists>sel. init H f dw self =
     Inr (self
       \<lparr> widgets := vs,
         widgetSelectLabel :=
           (if 1 < length vs then Some (createLabel (Translated ''core'' ''editMode'')) else None),
         widgetSelect := sel,
         wrapper_type := f_type f,
         wrapper_children :=
           (if f_label f \<noteq> Num 0 then [createLabel (Text (self_label self))] else []),
         errors_children := [],
         description := (if f_description f \<noteq> Undefined then Some (f_description f) else None),
         helpText := Str [] \<rparr>) \<and>
     (if 1 < length vs
      then \<exists>opts. sel = Some opts \<and>
             map (\<lambda>p. Inr (fst p)) opts = map (\<lambda>w. get_prop w ''name'') vs \<and>
             map (\<lambda>p. Inr (snd p)) opts = map (\<lambda>w. get_prop w ''label'') vs
      else sel = None)"
proof (cases "1 < length vs")
  case True
  from getValidWidgets_long_readable [OF assms True]
  obtain opts where o: "options_loop vs [] = Inr opts"
    "map (\<lambda>p. Inr (fst p)) opts = map (\<lambda>w. get_prop w ''name'') vs"
    "map (\<lambda>p. Inr (snd p)) opts = map (\<lambda>w. get_prop w ''label'') vs"
    using options_loop_readable [of vs "[]"] by auto
  show ?thesis
    by (rule exI [of _ "Some opts"]) (use True assms o in \<open>simp add: init_def\<close>)
next
  case False
  show ?thesis
    by (rule exI [of _ None]) (use False assms in \<open>simp add: init_def\<close>)
qed

lemma init_Inl:
  "getValidWidgets H f dw self = Inl e \<Longrightarrow> init H f dw self = Inl e"
  by (simp add: init_def)

lemmas ex_defs = ex_registry_def ex_default_def ex_html_def ex_nope_def ex_field_def
lemmas ctor_defs = SemanticStructure_def init_def getValidWidgets_def getWidget_def
  new_self_def createLabel_def

lemma SemanticStructure_Inr:
  assumes "SemanticStructure H f dw = Inr s"
  shows "\<exists>vs sel.
     getValidWidgets H f dw
       (new_self \<lparr> self_label := (if f_label f = Undefined then f_name f else f_label f) \<rparr>) = Inr vs \<and>
     widgets s = vs \<and>
     self_label s = (if f_label f = Undefined then f_name f else f_label f) \<and>
     self_widget s = None \<and> self_default s = Undefined \<and> events s = [] \<and>
     errors_children s = [] \<and>
     wrapper_children s = (if f_label f \<noteq> Num 0 then [createLabel (Text (self_label s))] else []) \<and>
     widgetSelectLabel s =
       (if 1 < length vs then Some (createLabel (Translated ''core'' ''editMode'')) else None) \<and>
     widgetSelect s = sel \<and>
     (if 1 < length vs
      then \<exists>opts. sel = Some opts \<and>
             map (\<lambda>p. Inr (fst p)) opts = map (\<lambda>w. get_prop w ''name'') vs \<and>
             map (\<lambda>p. Inr (snd p)) opts = map (\<lambda>w. get_prop w ''label'') vs
      else sel = None)"
proof -
  let ?self = "new_self \<lparr> self_label := (if f_label f = Undefined then f_name f else f_label f) \<rparr>"
  from assms have i: "init H f dw ?self = Inr s"
    by (simp add: SemanticStructure_def)
  then obtain vs where vs: "getValidWidgets H f dw ?self = Inr vs"
    by (cases "getValidWidgets H f dw ?self") (simp_all add: init_Inl)
  from init_Inr [OF vs] i obtain sel where
    s: "s = ?self
       \<lparr> widgets := vs,
         widgetSelectLabel :=
           (if 1 < length vs then Some (createLabel (Translated ''core'' ''editMode'')) else None),
         widgetSelect := sel,
         wrapper_type := f_type f,
         wrapper_children :=
           (if f_label f \<noteq> Num 0 then [createLabel (Text (self_label ?self))] else []),
         errors_children := [],
         description := (if f_description f \<noteq> Undefined then Some (f_description f) else None),
         helpText := Str [] \<rparr>"
    and sel: "if 1 < length vs
      then \<exists>opts. sel = Some opts \<and>
             map (\<lambda>p. Inr (fst p)) opts = map (\<lambda>w. get_prop w ''name'') vs \<and>
             map (\<lambda>p. Inr (snd p)) opts = map (\<lambda>w. get_prop w ''label'') vs
      else sel = None"
    by auto
  show ?thesis
    apply (rule exI [of _ vs], rule exI [of _ sel])
    using vs sel by (simp add: s new_self_def)
qed

lemma ex_two_constructed:
  "\<exists>s. SemanticStructure ex_registry (ex_field Undefined (Arr [ex_default, ex_html])) ex_default = Inr s \<and>
     widgets s = [ex_default, ex_html] \<and> next_id s = 0 \<and> self_widget s = None \<and> events s = [] \<and>
     widgetSelect s = Some [(Str ''text'', Str ''Text''), (Str ''html'', Str ''Html'')]"
  by (simp add: ctor_defs ex_defs)

text \<open>
  When no declared candidate resolves, the entry added is the value of \<^verbatim>\<open>self.default\<close>,
  which is \<^verbatim>\<open>undefined\<close>; mounting such a wrapper throws at \<^verbatim>\<open>widgets[0].name\<close>.
\<close>

lemma SemanticStructure_all_unregistered:
  assumes "f_widgets f = Arr ws" and "list_all readable ws" and "filter (resolves H) ws = []"
  shows "\<exists>s. SemanticStructure H f dw = Inr s \<and> widgets s = [Undefined]"
proof -
  let ?self = "new_self \<lparr> self_label := (if f_label f = Undefined then f_name f else f_label f) \<rparr>"
  have "self_default ?self = Undefined"
    by (simp add: new_self_def)
  with getValidWidgets_array [OF assms(1,2), of H dw ?self] assms(3)
  have v: "getValidWidgets H f dw ?self = Inr [Undefined]" by simp
  from init_Inr [OF v] obtain s where "init H f dw ?self = Inr s" and "widgets s = [Undefined]"
    by auto
  then show ?thesis
    by (simp add: SemanticStructure_def)
qed

section \<open>Active instances along the log\<close>

lemma live_snoc: "live (ev @ [e]) = live_step (live ev) e"
  by (simp add: live_def)

lemma live_append: "live (ev @ ev') = foldl live_step (live ev) ev'"
  by (simp add: live_def)

lemma never_two_from_append:
  "never_two_from l (xs @ ys) = (never_two_from l xs \<and> never_two_from (foldl live_step l xs) ys)"
proof (induction xs arbitrary: l)
  case Nil
  show ?case by (cases ys) auto
next
  case (Cons x xs)
  then show ?case by auto
qed

lemma never_two_append:
  "never_two (ev @ ev') = (never_two ev \<and> never_two_from (live ev) ev')"
  by (simp add: never_two_def live_def never_two_from_append)

lemma never_two_from_prefixes:
  "never_two_from l ev = (\<forall>n. length (foldl live_step l (take n ev)) \<le> 1)"
proof (induction ev arbitrary: l)
  case Nil
  show ?case by simp
next
  case (Cons e ev)
  have "(\<forall>n. length (foldl live_step l (take n (e # ev))) \<le> 1) =
        (length l \<le> 1 \<and> (\<forall>n. length (foldl live_step (live_step l e) (take n ev)) \<le> 1))"
    (is "?L = ?R")
  proof
    assume a: ?L
    from a [rule_format, of 0] have "length l \<le> 1" by simp
    moreover have "\<forall>n. length (foldl live_step (live_step l e) (take n ev)) \<le> 1"
    proof
      fix n
      from a [rule_format, of "Suc n"]
      show "length (foldl live_step (live_step l e) (take n ev)) \<le> 1" by simp
    qed
    ultimately show ?R by simp
  next
    assume a: ?R
    show ?L
    proof
      fix n
      show "length (foldl live_step l (take n (e # ev))) \<le> 1"
        using a by (cases n) simp_all
    qed
  qed
  with Cons show ?case by simp
qed

lemma never_two_prefixes: "never_two ev = (\<forall>n. length (live (take n ev)) \<le> 1)"
  by (simp add: never_two_def live_def never_two_from_prefixes)

section \<open>Widget change and mounting\<close>

lemma changeWidget_Ctor:
  assumes "getWidget H name = Ctor c h"
  shows "\<exists>s'. changeWidget H name s = Inr s' \<and>
     events s' = events s @ change_events s c \<and>
     self_widget s' = Some \<lparr> wi_id = next_id s, wi_class = c, wi_helpText = h \<rparr> \<and>
     next_id s' = Suc (next_id s) \<and>
     helpText s' = (if h \<noteq> Undefined then h else Str []) \<and>
     widgets s' = widgets s \<and> widgetSelect s' = widgetSelect s \<and>
     widgetSelectLabel s' = widgetSelectLabel s \<and>
     errors_children s' = errors_children s \<and> self_label s' = self_label s"
  using assms
  by (cases "self_widget s"; cases "description s")
     (simp_all add: changeWidget_def change_events_def emit_def wrapper_append_def Let_def)

lemma changeWidget_not_Ctor:
  assumes "\<forall>c h. getWidget H name \<noteq> Ctor c h"
  shows "changeWidget H name s =
     Inl (TypeError NotAConstructor,
          case self_widget s of None \<Rightarrow> s | Some old \<Rightarrow> emit (WidgetRemove (wi_id old)) s)"
  using assms by (cases "getWidget H name") (simp_all add: changeWidget_def Let_def)

lemma not_is_Ctor: "\<not> is_Ctor v \<Longrightarrow> \<forall>c h. v \<noteq> Ctor c h"
  by (cases v) simp_all

lemma inv_change_events:
  assumes "inv_active s"
  shows "never_two (events s @ change_events s c) \<and>
         live (events s @ change_events s c) = [next_id s]"
proof (cases "self_widget s")
  case None
  with assms have "never_two (events s)" and "live (events s) = []"
    by (simp_all add: inv_active_def)
  with None show ?thesis
    by (simp add: change_events_def never_two_append live_append)
next
  case (Some old)
  with assms have n: "never_two (events s)"
    and l: "live (events s) = [] \<or> live (events s) = [wi_id old]"
    by (simp_all add: inv_active_def)
  from l show ?thesis
  proof
    assume "live (events s) = []"
    with n Some show ?thesis
      by (simp add: change_events_def never_two_append live_append)
  next
    assume "live (events s) = [wi_id old]"
    with n Some show ?thesis
      by (simp add: change_events_def never_two_append live_append)
  qed
qed

text \<open>
  The invariant holds after construction and is kept by every operation, whether it
  returns or throws.
\<close>

lemma inv_active_emit_other:
  assumes "inv_active s" and "live_step (live (events s)) e = live (events s)"
  shows "inv_active (emit e s)"
proof -
  from assms(1) have "length (live (events s)) \<le> 1"
    by (auto simp: inv_active_def split: option.splits)
  with assms show ?thesis
    by (simp add: inv_active_def emit_def never_two_append live_snoc cong: option.case_cong)
qed

lemma inv_active_emit_remove:
  assumes "inv_active s" and "self_widget s = Some w"
  shows "inv_active (emit (WidgetRemove (wi_id w)) s) \<and> live (events (emit (WidgetRemove (wi_id w)) s)) = []"
  using assms by (auto simp: inv_active_def emit_def never_two_append live_snoc)

lemma inv_active_released:
  assumes "inv_active s"
  shows "inv_active (case self_widget s of None \<Rightarrow> s | Some old \<Rightarrow> emit (WidgetRemove (wi_id old)) s)"
  using assms inv_active_emit_remove by (cases "self_widget s") simp_all

lemma inv_active_SemanticStructure:
  assumes "SemanticStructure H f dw = Inr s"
  shows "inv_active s"
  using SemanticStructure_Inr [OF assms]
  by (auto simp: inv_active_def never_two_def live_def)

lemma inv_active_changeWidget:
  assumes "inv_active s"
  shows "case changeWidget H name s of Inl (e, s') \<Rightarrow> inv_active s' | Inr s' \<Rightarrow> inv_active s'"
proof (cases "\<exists>c h. getWidget H name = Ctor c h")
  case True
  then obtain c h where c: "getWidget H name = Ctor c h" by blast
  from changeWidget_Ctor [OF c, of s] obtain s' where
    s': "changeWidget H name s = Inr s'"
    and e: "events s' = events s @ change_events s c"
    and w: "self_widget s' = Some \<lparr> wi_id = next_id s, wi_class = c, wi_helpText = h \<rparr>"
    by blast
  from inv_change_events [OF assms, of c] e w have "inv_active s'"
    by (simp add: inv_active_def)
  with s' show ?thesis by simp
next
  case False
  then have "\<forall>c h. getWidget H name \<noteq> Ctor c h" by simp
  from changeWidget_not_Ctor [OF this, of s] inv_active_released [OF assms]
  show ?thesis by simp
qed

lemma inv_active_remove_field:
  assumes "inv_active s"
  shows "case remove_field s of Inl (e, s') \<Rightarrow> inv_active s' | Inr s' \<Rightarrow> inv_active s'"
  using assms inv_active_emit_remove
  by (cases "self_widget s") (simp_all add: remove_field_def)

lemma inv_active_setError: "inv_active (setError m s) = inv_active s"
  by (simp add: inv_active_def setError_def cong: option.case_cong)

lemma inv_active_clearErrors: "inv_active (clearErrors s) = inv_active s"
  by (simp add: inv_active_def clearErrors_def cong: option.case_cong)

lemma appendTo_Ctor:
  assumes "inv_active s" and "widgets s = w # ws" and "get_prop w ''name'' = Inr name"
    and "getWidget H name = Ctor c h"
  shows "\<exists>s'. appendTo H container s = Inr s' \<and>
     events s' = events s @ select_events s container @ change_events s c @
       [ContainerAppend [WrapperEl] container] \<and>
     self_widget s' = Some \<lparr> wi_id = next_id s, wi_class = c, wi_helpText = h \<rparr> \<and>
     next_id s' = Suc (next_id s) \<and>
     live (events s') = [next_id s] \<and> never_two (events s') \<and> inv_active s'"
proof -
  define s1 where "s1 = (case widgetSelect s of
       None \<Rightarrow> s
     | Some options \<Rightarrow> emit (ContainerAppend [WidgetSelectLabelEl, WidgetSelectEl] container) s)"
  have e1: "events s1 = events s @ select_events s container"
    and w1: "self_widget s1 = self_widget s" and n1: "next_id s1 = next_id s"
    and ws1: "widgets s1 = widgets s"
    by (cases "widgetSelect s"; simp add: s1_def select_events_def emit_def)+
  have i1: "inv_active s1"
    using assms(1) inv_active_emit_other [OF assms(1)]
    by (cases "widgetSelect s") (simp_all add: s1_def)
  from changeWidget_Ctor [OF assms(4), of s1] obtain s2 where
    s2: "changeWidget H name s1 = Inr s2"
    and e2: "events s2 = events s1 @ change_events s1 c"
    and w2: "self_widget s2 = Some \<lparr> wi_id = next_id s1, wi_class = c, wi_helpText = h \<rparr>"
    and n2: "next_id s2 = Suc (next_id s1)"
    by blast
  from inv_change_events [OF i1, of c] e2
  have nt2: "never_two (events s2)" and l2: "live (events s2) = [next_id s1]"
    by simp_all
  have i2: "inv_active s2"
    using nt2 l2 w2 by (simp add: inv_active_def)
  have ce: "change_events s1 c = change_events s c"
    by (simp add: change_events_def w1 n1)
  let ?s' = "emit (ContainerAppend [WrapperEl] container) s2"
  have a: "appendTo H container s = Inr ?s'"
    using assms(2,3) s2 ws1 by (simp add: appendTo_def s1_def [symmetric])
  have i3: "inv_active ?s'"
    by (rule inv_active_emit_other [OF i2]) simp
  have "events ?s' = events s @ select_events s container @ change_events s c @
       [ContainerAppend [WrapperEl] container]"
    by (simp add: emit_def e2 e1 ce)
  moreover have "live (events ?s') = [next_id s]"
    using l2 n1 by (simp add: emit_def live_snoc)
  moreover have "never_two (events ?s')"
    using i3 by (simp add: inv_active_def)
  moreover have "self_widget ?s' = Some \<lparr> wi_id = next_id s, wi_class = c, wi_helpText = h \<rparr>"
    using w2 n1 by (simp add: emit_def)
  moreover have "next_id ?s' = Suc (next_id s)"
    using n2 n1 by (simp add: emit_def)
  ultimately show ?thesis using a i3 by blast
qed

lemma appendTo_throws:
  assumes "\<forall>name c h. get_prop (case widgets s of [] \<Rightarrow> Undefined | w # ws \<Rightarrow> w) ''name'' = Inr name \<longrightarrow>
             getWidget H name \<noteq> Ctor c h"
  shows "\<exists>e s'. appendTo H container s = Inl (e, s') \<and> self_widget s' = self_widget s \<and>
           ContainerAppend [WrapperEl] container \<notin> set (drop (length (events s)) (events s'))"
proof (cases "get_prop (case widgets s of [] \<Rightarrow> Undefined | w # ws \<Rightarrow> w) ''name''")
  case (Inl e)
  then show ?thesis
    by (cases "widgetSelect s") (simp_all add: appendTo_def emit_def)
next
  case (Inr name)
  with assms have "\<forall>c h. getWidget H name \<noteq> Ctor c h" by simp
  from changeWidget_not_Ctor [OF this] Inr show ?thesis
    by (cases "widgetSelect s"; cases "self_widget s") (simp_all add: appendTo_def emit_def)
qed

lemma appendTo_undefined_candidate:
  assumes "widgets s = Undefined # ws"
  shows "\<exists>s'. appendTo H container s = Inl (TypeError (CannotReadProperty ''name''), s')"
  using assms by (cases "widgetSelect s") (simp_all add: appendTo_def emit_def)

lemma inv_active_appendTo:
  assumes "inv_active s"
  shows "case appendTo H container s of Inl (e, s') \<Rightarrow> inv_active s' | Inr s' \<Rightarrow> inv_active s'"
proof -
  define s1 where "s1 = (case widgetSelect s of
       None \<Rightarrow> s
     | Some options \<Rightarrow> emit (ContainerAppend [WidgetSelectLabelEl, WidgetSelectEl] container) s)"
  have i1: "inv_active s1"
    using assms inv_active_emit_other [OF assms]
    by (cases "widgetSelect s") (simp_all add: s1_def)
  show ?thesis
  proof (cases "get_prop (case widgets s1 of [] \<Rightarrow> Undefined | w # ws \<Rightarrow> w) ''name''")
    case (Inl e)
    with i1 show ?thesis
      by (simp add: appendTo_def s1_def [symmetric])
  next
    case (Inr name)
    show ?thesis
    proof (cases "changeWidget H name s1")
      case (Inl es)
      with inv_active_changeWidget [OF i1, of H name] Inr show ?thesis
        by (simp add: appendTo_def s1_def [symmetric])
    next
      case r: (Inr s2)
      with inv_active_changeWidget [OF i1, of H name] have "inv_active s2" by simp
      then have "inv_active (emit (ContainerAppend [WrapperEl] container) s2)"
        by (rule inv_active_emit_other) simp
      with r Inr show ?thesis
        by (simp add: appendTo_def s1_def [symmetric])
    qed
  qed
qed

section \<open>The properties\<close>

text \<open>
  Claim C1: a descriptor whose \<^verbatim>\<open>widgets\<close> array names only unregistered widget types
  should resolve to the one default widget given to the constructor. The source pushes
  \<^verbatim>\<open>self.default\<close>, a property nothing ever sets, where the branch without
  \<^verbatim>\<open>widgets\<close> returns \<^verbatim>\<open>[defaultWidget]\<close>: for the field \<^verbatim>\<open>title\<close> with the one
  candidate \<^verbatim>\<open>nope\<close> the resolved list is \<^verbatim>\<open>[undefined]\<close>, which is not the default.
\<close>

theorem unregistered_fallback_is_undefined:
  "map_sum id widgets (SemanticStructure ex_registry (ex_field Undefined (Arr [ex_nope])) ex_default)
     = Inr [Undefined] \<and> [Undefined] \<noteq> [ex_default]"
  by (simp add: ctor_defs ex_defs)

text \<open>
  Claim C2, as stated, fails: with \<^verbatim>\<open>label\<close> set to 0 the public \<^verbatim>\<open>self.label\<close> is
  that 0, while the descriptor's name is \<^verbatim>\<open>title\<close>.
\<close>

theorem label_zero_self_label_counterexample:
  "f_label (ex_field (Num 0) Undefined) = Num 0 \<and>
   map_sum id self_label (SemanticStructure ex_registry (ex_field (Num 0) Undefined) ex_default)
     = Inr (Num 0) \<and>
   f_name (ex_field (Num 0) Undefined) = Str ''title''"
  by (simp add: ctor_defs ex_defs)

text \<open>
  Claim C2, amended: for every accepted descriptor whose \<^verbatim>\<open>label\<close> is the number 0,
  construction puts no label element into the wrapper (the wrapper has no child at
  all), and the public \<^verbatim>\<open>self.label\<close> is that value 0 itself.
\<close>

theorem label_zero_no_label_element:
  assumes "f_label f = Num 0" and "SemanticStructure H f dw = Inr s"
  shows "wrapper_children s = [] \<and> self_label s = Num 0"
  using SemanticStructure_Inr [OF assms(2)] assms(1) by auto

text \<open>Claim C2 at sample descriptors.\<close>

theorem label_zero_no_label_element_witness:
  "\<exists>s. SemanticStructure ex_registry (ex_field (Num 0) Undefined) ex_default = Inr s \<and>
       wrapper_children s = [] \<and> self_label s = Num 0"
proof -
  have l: "f_label (ex_field (Num 0) Undefined) = Num 0"
    by (simp add: ex_field_def)
  obtain s where s: "SemanticStructure ex_registry (ex_field (Num 0) Undefined) ex_default = Inr s"
    by (simp add: ctor_defs ex_defs)
  from label_zero_no_label_element [OF l s] s show ?thesis by blast
qed

text \<open>
  Claim C3, as stated, fails: a widget change to a name under which the registry holds
  no constructor throws at \<^verbatim>\<open>new widget(self)\<close> and emits no \<^verbatim>\<open>changeWidget\<close> event.
  Here the default widget \<^verbatim>\<open>nope\<close> is not registered, and the change is the one that
  \<^verbatim>\<open>appendTo\<close> makes on the wrapper just constructed.
\<close>

theorem changeWidget_no_constructor_counterexample:
  "map_sum id (changeWidget_triggers ex_registry (Str ''nope''))
     (SemanticStructure ex_registry (ex_field Undefined Undefined) ex_nope) = Inr 0 \<and>
   map_sum id (outcome \<circ> changeWidget ex_registry (Str ''nope''))
     (SemanticStructure ex_registry (ex_field Undefined Undefined) ex_nope)
     = Inr (Some (TypeError NotAConstructor), [], None)"
  by (simp add: ctor_defs ex_defs changeWidget_triggers_def final_state_def outcome_def
      changeWidget_def)

text \<open>
  Claim C3, amended: for every widget change, from \<^verbatim>\<open>appendTo\<close> or from the select
  box, in a state where at most \<^verbatim>\<open>self.widget\<close> is active: the \<^verbatim>\<open>remove()\<close> of the
  old instance, if \<^verbatim>\<open>self.widget\<close> was set, is the first call it adds to the log,
  before any construction, and at no point of the log are two instances active. When
  the name resolves to a widget class the change returns, constructs the new instance,
  emits exactly one \<^verbatim>\<open>changeWidget\<close> event and mounts the instance, which is then the
  only active one. When the name resolves to no constructor the change throws a
  TypeError after the release, emits no event, and no instance is active.
\<close>

theorem changeWidget_releases_then_constructs:
  assumes "inv_active s"
  shows "widgetSelect_change H name s = changeWidget H name s \<and>
    (getWidget H name = Ctor c h \<longrightarrow>
       (\<exists>s'. changeWidget H name s = Inr s' \<and>
          events s' = events s @
            (case self_widget s of None \<Rightarrow> [] | Some old \<Rightarrow> [WidgetRemove (wi_id old)]) @
            [WidgetNew c (next_id s), Trigger ''changeWidget'', WidgetAppendTo (next_id s)] \<and>
          changeWidget_triggers H name s = 1 \<and>
          self_widget s' = Some \<lparr> wi_id = next_id s, wi_class = c, wi_helpText = h \<rparr> \<and>
          never_two (events s') \<and> live (events s') = [next_id s] \<and> inv_active s')) \<and>
    (\<not> is_Ctor (getWidget H name) \<longrightarrow>
       (\<exists>s'. changeWidget H name s = Inl (TypeError NotAConstructor, s') \<and>
          events s' = events s @
            (case self_widget s of None \<Rightarrow> [] | Some old \<Rightarrow> [WidgetRemove (wi_id old)]) \<and>
          changeWidget_triggers H name s = 0 \<and>
          self_widget s' = self_widget s \<and>
          never_two (events s') \<and> live (events s') = [] \<and> inv_active s'))"
proof (intro conjI impI)
  show "widgetSelect_change H name s = changeWidget H name s"
    by (simp add: widgetSelect_change_def)
next
  assume g: "getWidget H name = Ctor c h"
  from changeWidget_Ctor [OF g, of s] obtain s' where
    s': "changeWidget H name s = Inr s'"
    and e: "events s' = events s @ change_events s c"
    and w: "self_widget s' = Some \<lparr> wi_id = next_id s, wi_class = c, wi_helpText = h \<rparr>"
    by blast
  from inv_change_events [OF assms, of c] e
  have n: "never_two (events s')" and l: "live (events s') = [next_id s]"
    by simp_all
  have i: "inv_active s'"
    using n l w by (simp add: inv_active_def)
  have t: "changeWidget_triggers H name s = 1"
    by (cases "self_widget s")
       (simp_all add: changeWidget_triggers_def final_state_def s' e change_events_def)
  show "\<exists>s'. changeWidget H name s = Inr s' \<and>
          events s' = events s @
            (case self_widget s of None \<Rightarrow> [] | Some old \<Rightarrow> [WidgetRemove (wi_id old)]) @
            [WidgetNew c (next_id s), Trigger ''changeWidget'', WidgetAppendTo (next_id s)] \<and>
          changeWidget_triggers H name s = 1 \<and>
          self_widget s' = Some \<lparr> wi_id = next_id s, wi_class = c, wi_helpText = h \<rparr> \<and>
          never_two (events s') \<and> live (events s') = [next_id s] \<and> inv_active s'"
    by (rule exI [of _ s']) (use s' e w n l i t in \<open>simp add: change_events_def\<close>)
next
  assume "\<not> is_Ctor (getWidget H name)"
  then have g: "\<forall>c h. getWidget H name \<noteq> Ctor c h" by (rule not_is_Ctor)
  let ?s' = "case self_widget s of None \<Rightarrow> s | Some old \<Rightarrow> emit (WidgetRemove (wi_id old)) s"
  have c: "changeWidget H name s = Inl (TypeError NotAConstructor, ?s')"
    by (rule changeWidget_not_Ctor [OF g])
  have i: "inv_active ?s'"
    by (rule inv_active_released [OF assms])
  have e: "events ?s' = events s @
            (case self_widget s of None \<Rightarrow> [] | Some old \<Rightarrow> [WidgetRemove (wi_id old)])"
    by (cases "self_widget s") (simp_all add: emit_def)
  have w: "self_widget ?s' = self_widget s"
    by (cases "self_widget s") (simp_all add: emit_def)
  have l: "live (events ?s') = []"
  proof (cases "self_widget s")
    case None
    with assms show ?thesis by (simp add: inv_active_def)
  next
    case (Some old)
    with inv_active_emit_remove [OF assms Some] show ?thesis by simp
  qed
  have n: "never_two (events ?s')"
    using i by (simp add: inv_active_def)
  have t: "changeWidget_triggers H name s = 0"
    by (cases "self_widget s")
       (simp_all add: changeWidget_triggers_def final_state_def c emit_def)
  show "\<exists>s'. changeWidget H name s = Inl (TypeError NotAConstructor, s') \<and>
          events s' = events s @
            (case self_widget s of None \<Rightarrow> [] | Some old \<Rightarrow> [WidgetRemove (wi_id old)]) \<and>
          changeWidget_triggers H name s = 0 \<and>
          self_widget s' = self_widget s \<and>
          never_two (events s') \<and> live (events s') = [] \<and> inv_active s'"
    by (rule exI [of _ ?s']) (use c e w l n i t in simp)
qed

text \<open>Claim C3 at sample descriptors.\<close>

theorem changeWidget_releases_then_constructs_witness:
  "\<exists>s0 s1 s2 s3.
     SemanticStructure ex_registry (ex_field Undefined (Arr [ex_default, ex_html])) ex_default = Inr s0 \<and>
     appendTo ex_registry 7 s0 = Inr s1 \<and>
     widgetSelect_change ex_registry (Str ''html'') s1 = Inr s2 \<and>
     events s2 = events s1 @
       [WidgetRemove 0, WidgetNew ''html'' 1, Trigger ''changeWidget'', WidgetAppendTo 1] \<and>
     changeWidget_triggers ex_registry (Str ''html'') s1 = 1 \<and>
     self_widget s2 = Some \<lparr> wi_id = 1, wi_class = ''html'', wi_helpText = Str ''Use the toolbar'' \<rparr> \<and>
     never_two (events s2) \<and> live (events s2) = [1] \<and>
     changeWidget ex_registry (Str ''nope'') s1 = Inl (TypeError NotAConstructor, s3) \<and>
     events s3 = events s1 @ [WidgetRemove 0] \<and>
     changeWidget_triggers ex_registry (Str ''nope'') s1 = 0 \<and>
     never_two (events s3) \<and> live (events s3) = []"
proof -
  from ex_two_constructed obtain s0 where
    s0: "SemanticStructure ex_registry (ex_field Undefined (Arr [ex_default, ex_html])) ex_default = Inr s0"
    and ws: "widgets s0 = ex_default # [ex_html]" and n: "next_id s0 = 0"
    by auto
  have p: "get_prop ex_default ''name'' = Inr (Str ''text'')"
    by (simp add: ex_default_def)
  have r: "getWidget ex_registry (Str ''text'') = Ctor ''text'' Undefined"
    by (simp add: getWidget_def ex_registry_def)
  from appendTo_Ctor [OF inv_active_SemanticStructure [OF s0] ws p r, of 7] n
  obtain s1 where s1: "appendTo ex_registry 7 s0 = Inr s1"
    and w1: "self_widget s1 = Some \<lparr> wi_id = 0, wi_class = ''text'', wi_helpText = Undefined \<rparr>"
    and n1: "next_id s1 = 1" and i1: "inv_active s1"
    by auto
  have r1: "getWidget ex_registry (Str ''html'') = Ctor ''html'' (Str ''Use the toolbar'')"
    by (simp add: getWidget_def ex_registry_def)
  from changeWidget_releases_then_constructs [OF i1, of ex_registry "Str ''html''" "''html''" "Str ''Use the toolbar''"] r1 w1 n1
  obtain s2 where
    "widgetSelect_change ex_registry (Str ''html'') s1 = Inr s2"
    "events s2 = events s1 @
       [WidgetRemove 0, WidgetNew ''html'' 1, Trigger ''changeWidget'', WidgetAppendTo 1]"
    "changeWidget_triggers ex_registry (Str ''html'') s1 = 1"
    "self_widget s2 = Some \<lparr> wi_id = 1, wi_class = ''html'', wi_helpText = Str ''Use the toolbar'' \<rparr>"
    "never_two (events s2)" "live (events s2) = [1]"
    by auto
  moreover
  have r3: "getWidget ex_registry (Str ''nope'') = Undefined"
    by (simp add: getWidget_def ex_registry_def)
  from changeWidget_releases_then_constructs [OF i1, of ex_registry "Str ''nope''" "''nope''" Undefined] r3 w1
  obtain s3 where
    "changeWidget ex_registry (Str ''nope'') s1 = Inl (TypeError NotAConstructor, s3)"
    "events s3 = events s1 @ [WidgetRemove 0]"
    "changeWidget_triggers ex_registry (Str ''nope'') s1 = 0"
    "never_two (events s3)" "live (events s3) = []"
    by auto
  ultimately show ?thesis using s0 s1 by blast
qed

text \<open>
  Claim C4: for every descriptor whose \<^verbatim>\<open>widgets\<close> is present (not \<^verbatim>\<open>undefined\<close>) and
  is not an array, the constructor throws the TypeError "widgets must be an array".
\<close>

theorem non_array_widgets_TypeError:
  assumes "f_widgets f \<noteq> Undefined" and "\<not> instanceof_Array (f_widgets f)"
  shows "SemanticStructure H f dw = Inl (TypeError (Thrown ''widgets must be an array''))"
  using assms by (simp add: SemanticStructure_def init_Inl getValidWidgets_not_array)

text \<open>Claim C4 at sample descriptors.\<close>

theorem non_array_widgets_TypeError_witness:
  "SemanticStructure ex_registry (ex_field Undefined (Str ''text'')) ex_default =
     Inl (TypeError (Thrown ''widgets must be an array''))"
  by (rule non_array_widgets_TypeError) (simp_all add: ex_field_def)

text \<open>
  Claim C5, as stated, fails: with a default widget \<^verbatim>\<open>nope\<close> that the registry does
  not hold, the constructor resolves the list to that default, and \<^verbatim>\<open>appendTo\<close>
  throws in the widget change: no instance is constructed or active, and the wrapper is
  not handed to the container.
\<close>

theorem appendTo_unregistered_default_counterexample:
  "map_sum id widgets (SemanticStructure ex_registry (ex_field Undefined Undefined) ex_nope)
     = Inr [ex_nope] \<and>
   map_sum id (outcome \<circ> appendTo ex_registry 7)
     (SemanticStructure ex_registry (ex_field Undefined Undefined) ex_nope)
     = Inr (Some (TypeError NotAConstructor), [], None) \<and>
   live [] = []"
  by (simp add: ctor_defs ex_defs outcome_def appendTo_def changeWidget_def live_def)

text \<open>
  Claim C5, amended: construction instantiates no widget and calls nothing outside.
  For every wrapper, in a state where at most \<^verbatim>\<open>self.widget\<close> is active, whose first
  resolved candidate's name resolves to a widget class, \<^verbatim>\<open>appendTo(container)\<close>
  returns, and the calls it adds to the log are, in this order: the selector handed to
  the container if there is a selector, the widget change to that class (release of the
  old instance if any, construction, event, mounting), the wrapper handed to the
  container. Afterwards \<^verbatim>\<open>self.widget\<close> is the instance just constructed from that
  class, and it is the only active one.
\<close>

theorem appendTo_steps_in_order:
  "(SemanticStructure G g dw = Inr t \<longrightarrow>
      self_widget t = None \<and> events t = [] \<and> inv_active t) \<and>
   (inv_active s \<longrightarrow> widgets s = w # ws \<longrightarrow> get_prop w ''name'' = Inr name \<longrightarrow>
    getWidget H name = Ctor c h \<longrightarrow>
      (\<exists>s'. appendTo H container s = Inr s' \<and>
         events s' = events s @
           (case widgetSelect s of
              None \<Rightarrow> []
            | Some options \<Rightarrow> [ContainerAppend [WidgetSelectLabelEl, WidgetSelectEl] container]) @
           (case self_widget s of None \<Rightarrow> [] | Some old \<Rightarrow> [WidgetRemove (wi_id old)]) @
           [WidgetNew c (next_id s), Trigger ''changeWidget'', WidgetAppendTo (next_id s),
            ContainerAppend [WrapperEl] container] \<and>
         self_widget s' = Some \<lparr> wi_id = next_id s, wi_class = c, wi_helpText = h \<rparr> \<and>
         live (events s') = [next_id s] \<and> never_two (events s') \<and> inv_active s'))"
proof (intro conjI impI)
  assume a: "SemanticStructure G g dw = Inr t"
  from SemanticStructure_Inr [OF a] show "self_widget t = None" by blast
  from SemanticStructure_Inr [OF a] show "events t = []" by blast
  from a show "inv_active t" by (rule inv_active_SemanticStructure)
next
  assume "inv_active s" "widgets s = w # ws" "get_prop w ''name'' = Inr name"
    "getWidget H name = Ctor c h"
  from appendTo_Ctor [OF this, of container]
  show "\<exists>s'. appendTo H container s = Inr s' \<and>
         events s' = events s @
           (case widgetSelect s of
              None \<Rightarrow> []
            | Some options \<Rightarrow> [ContainerAppend [WidgetSelectLabelEl, WidgetSelectEl] container]) @
           (case self_widget s of None \<Rightarrow> [] | Some old \<Rightarrow> [WidgetRemove (wi_id old)]) @
           [WidgetNew c (next_id s), Trigger ''changeWidget'', WidgetAppendTo (next_id s),
            ContainerAppend [WrapperEl] container] \<and>
         self_widget s' = Some \<lparr> wi_id = next_id s, wi_class = c, wi_helpText = h \<rparr> \<and>
         live (events s') = [next_id s] \<and> never_two (events s') \<and> inv_active s'"
    by (auto simp: select_events_def change_events_def)
qed

text \<open>Claim C5 at sample descriptors.\<close>

theorem appendTo_steps_in_order_witness:
  "\<exists>s s'. SemanticStructure ex_registry (ex_field Undefined (Arr [ex_default, ex_html])) ex_default = Inr s \<and>
     self_widget s = None \<and> events s = [] \<and>
     appendTo ex_registry 7 s = Inr s' \<and>
     events s' =
       [ContainerAppend [WidgetSelectLabelEl, WidgetSelectEl] 7,
        WidgetNew ''text'' 0, Trigger ''changeWidget'', WidgetAppendTo 0,
        ContainerAppend [WrapperEl] 7] \<and>
     self_widget s' = Some \<lparr> wi_id = 0, wi_class = ''text'', wi_helpText = Undefined \<rparr> \<and>
     live (events s') = [0]"
proof -
  from ex_two_constructed obtain s where
    s: "SemanticStructure ex_registry (ex_field Undefined (Arr [ex_default, ex_html])) ex_default = Inr s"
    and ws: "widgets s = ex_default # [ex_html]" and n: "next_id s = 0"
    and sel: "widgetSelect s = Some [(Str ''text'', Str ''Text''), (Str ''html'', Str ''Html'')]"
    by auto
  note t = appendTo_steps_in_order [where G = ex_registry and g = "ex_field Undefined (Arr [ex_default, ex_html])"
      and dw = ex_default and t = s and s = s and w = ex_default and ws = "[ex_html]"
      and name = "Str ''text''" and H = ex_registry and c = "''text''" and h = Undefined
      and container = 7]
  from t s have c: "self_widget s = None" "events s = []" "inv_active s" by simp_all
  have p: "get_prop ex_default ''name'' = Inr (Str ''text'')"
    by (simp add: ex_default_def)
  have r: "getWidget ex_registry (Str ''text'') = Ctor ''text'' Undefined"
    by (simp add: getWidget_def ex_registry_def)
  from t c ws p r obtain s' where "appendTo ex_registry 7 s = Inr s'"
    "events s' =
       [ContainerAppend [WidgetSelectLabelEl, WidgetSelectEl] 7,
        WidgetNew ''text'' 0, Trigger ''changeWidget'', WidgetAppendTo 0,
        ContainerAppend [WrapperEl] 7]"
    "self_widget s' = Some \<lparr> wi_id = 0, wi_class = ''text'', wi_helpText = Undefined \<rparr>"
    "live (events s') = [0]"
    by (auto simp: sel n)
  with s c show ?thesis by blast
qed

text \<open>
  Claim C6: for every descriptor the constructor accepts, the resolved widget list is
  not empty.
\<close>

theorem resolved_widgets_nonempty:
  assumes "SemanticStructure H f dw = Inr s"
  shows "widgets s \<noteq> []"
  using SemanticStructure_Inr [OF assms] getValidWidgets_nonempty by blast

text \<open>Claim C6 at sample descriptors.\<close>

theorem resolved_widgets_nonempty_witness:
  "\<exists>s. SemanticStructure ex_registry (ex_field Undefined (Arr [ex_nope, ex_html])) ex_default = Inr s \<and>
       widgets s \<noteq> []"
proof -
  obtain s where s: "SemanticStructure ex_registry (ex_field Undefined (Arr [ex_nope, ex_html])) ex_default = Inr s"
    by (simp add: ctor_defs ex_defs)
  from resolved_widgets_nonempty [OF s] s show ?thesis by blast
qed

text \<open>
  Claim C7, as stated, fails for an array of which no candidate resolves: the filtered
  list is empty, the resolved list has the fallback entry.
\<close>

theorem resolved_widgets_not_filter_counterexample:
  "f_widgets (ex_field Undefined (Arr [ex_nope])) = Arr [ex_nope] \<and>
   map_sum id widgets (SemanticStructure ex_registry (ex_field Undefined (Arr [ex_nope])) ex_default)
     = Inr [Undefined] \<and>
   filter (resolves ex_registry) [ex_nope] = []"
  by (simp add: ctor_defs ex_defs resolves_def)

text \<open>
  Claim C7, amended: for every accepted descriptor without \<^verbatim>\<open>widgets\<close> the resolved
  list is exactly the default widget given to the constructor; for every accepted
  descriptor whose \<^verbatim>\<open>widgets\<close> is an array of which at least one candidate resolves,
  the resolved list is the declared candidates filtered to those that resolve, in the
  declared order, each entry kept whole (its label included).
\<close>

theorem resolved_widgets_default_or_filter:
  assumes "SemanticStructure H f dw = Inr s"
  shows "(f_widgets f = Undefined \<longrightarrow> widgets s = [dw]) \<and>
         (f_widgets f = Arr ws \<longrightarrow> filter (resolves H) ws \<noteq> [] \<longrightarrow>
            widgets s = filter (resolves H) ws)"
proof -
  from SemanticStructure_Inr [OF assms] obtain self where
    v: "getValidWidgets H f dw self = Inr (widgets s)" by blast
  show ?thesis
  proof (intro conjI impI)
    assume "f_widgets f = Undefined"
    with v show "widgets s = [dw]" by (simp add: getValidWidgets_undefined)
  next
    assume "f_widgets f = Arr ws" and "filter (resolves H) ws \<noteq> []"
    with getValidWidgets_array_Inr [OF _ v] show "widgets s = filter (resolves H) ws"
      by simp
  qed
qed

text \<open>Claim C7 at sample descriptors.\<close>

theorem resolved_widgets_default_or_filter_witness:
  "(\<exists>s. SemanticStructure ex_registry (ex_field Undefined Undefined) ex_default = Inr s \<and>
        widgets s = [ex_default]) \<and>
   (\<exists>s. SemanticStructure ex_registry (ex_field Undefined (Arr [ex_nope, ex_html, ex_default]))
          ex_default = Inr s \<and>
        widgets s = [ex_html, ex_default])"
proof -
  obtain s1 where s1: "SemanticStructure ex_registry (ex_field Undefined Undefined) ex_default = Inr s1"
    by (simp add: ctor_defs ex_defs)
  obtain s2 where s2: "SemanticStructure ex_registry
      (ex_field Undefined (Arr [ex_nope, ex_html, ex_default])) ex_default = Inr s2"
    by (simp add: ctor_defs ex_defs)
  have f: "filter (resolves ex_registry) [ex_nope, ex_html, ex_default] = [ex_html, ex_default]"
    by (simp add: resolves_def getWidget_def ex_defs)
  from resolved_widgets_default_or_filter [OF s1, of "[]"] have "widgets s1 = [ex_default]"
    by (simp add: ex_field_def)
  moreover from resolved_widgets_default_or_filter [OF s2, of "[ex_nope, ex_html, ex_default]"] f
  have "widgets s2 = [ex_html, ex_default]"
    by (simp add: ex_field_def)
  ultimately show ?thesis using s1 s2 by blast
qed

text \<open>
  Claim C8: after construction the select box and its label exist exactly when more
  than one candidate resolved; the box then has one option per candidate, in order, its
  value the candidate's \<^verbatim>\<open>name\<close> and its text the candidate's \<^verbatim>\<open>label\<close>, and the label
  is the translated \<^verbatim>\<open>editMode\<close> string; with one candidate there is neither.
\<close>

theorem selector_iff_several_widgets:
  assumes "SemanticStructure H f dw = Inr s"
  shows "(widgetSelect s \<noteq> None) = (1 < length (widgets s)) \<and>
         (widgetSelectLabel s \<noteq> None) = (1 < length (widgets s)) \<and>
         (1 < length (widgets s) \<longrightarrow>
            widgetSelectLabel s = Some (createLabel (Translated ''core'' ''editMode'')) \<and>
            (\<exists>opts. widgetSelect s = Some opts \<and>
               map (\<lambda>p. Inr (fst p)) opts = map (\<lambda>w. get_prop w ''name'') (widgets s) \<and>
               map (\<lambda>p. Inr (snd p)) opts = map (\<lambda>w. get_prop w ''label'') (widgets s))) \<and>
         (length (widgets s) = 1 \<longrightarrow> widgetSelect s = None \<and> widgetSelectLabel s = None)"
  using SemanticStructure_Inr [OF assms] by (auto split: if_splits)

text \<open>Claim C8 at sample descriptors.\<close>

theorem selector_iff_several_widgets_witness:
  "(\<exists>s. SemanticStructure ex_registry (ex_field Undefined (Arr [ex_default, ex_html])) ex_default = Inr s \<and>
        widgets s = [ex_default, ex_html] \<and>
        widgetSelect s = Some [(Str ''text'', Str ''Text''), (Str ''html'', Str ''Html'')]) \<and>
   (\<exists>s. SemanticStructure ex_registry (ex_field Undefined (Arr [ex_default])) ex_default = Inr s \<and>
        widgets s = [ex_default] \<and> widgetSelect s = None)"
proof -
  obtain s1 where s1: "SemanticStructure ex_registry
      (ex_field Undefined (Arr [ex_default, ex_html])) ex_default = Inr s1"
    by (simp add: ctor_defs ex_defs)
  obtain s2 where s2: "SemanticStructure ex_registry
      (ex_field Undefined (Arr [ex_default])) ex_default = Inr s2"
    by (simp add: ctor_defs ex_defs)
  have w1: "widgets s1 = [ex_default, ex_html]"
    using s1 by (auto simp: ctor_defs ex_defs)
  have w2: "widgets s2 = [ex_default]"
    using s2 by (auto simp: ctor_defs ex_defs)
  from selector_iff_several_widgets [OF s1] w1 obtain opts where
    o: "widgetSelect s1 = Some opts"
       "map (\<lambda>p. Inr (fst p)) opts = map (\<lambda>w. get_prop w ''name'') [ex_default, ex_html]"
       "map (\<lambda>p. Inr (snd p)) opts = map (\<lambda>w. get_prop w ''label'') [ex_default, ex_html]"
    by auto
  from o(2,3) have "opts = [(Str ''text'', Str ''Text''), (Str ''html'', Str ''Html'')]"
    by (auto simp: ex_defs)
  moreover from selector_iff_several_widgets [OF s2] w2 have "widgetSelect s2 = None" by simp
  ultimately show ?thesis using s1 s2 w1 w2 o(1) by blast
qed

text \<open>
  Claim C9: \<^verbatim>\<open>setError(message)\<close> appends one entry to the errors container and keeps
  the entries before it; after any sequence of \<^verbatim>\<open>setError\<close> calls \<^verbatim>\<open>clearErrors()\<close>
  leaves the container empty; both change nothing of the wrapper but the errors
  container, in particular neither \<^verbatim>\<open>self.widget\<close> nor the log of outside calls.
\<close>

theorem errors_accumulate_until_cleared:
  "errors_children (setError message s) = errors_children s @ [createError message] \<and>
   length (errors_children (setError message s)) = Suc (length (errors_children s)) \<and>
   errors_children (foldl (\<lambda>s m. setError m s) s messages) =
     errors_children s @ map createError messages \<and>
   errors_children (clearErrors (foldl (\<lambda>s m. setError m s) s messages)) = [] \<and>
   (setError message s) \<lparr> errors_children := [] \<rparr> = s \<lparr> errors_children := [] \<rparr> \<and>
   (clearErrors s) \<lparr> errors_children := [] \<rparr> = s \<lparr> errors_children := [] \<rparr> \<and>
   self_widget (setError message s) = self_widget s \<and>
   self_widget (clearErrors s) = self_widget s \<and>
   events (setError message s) = events s \<and>
   events (clearErrors s) = events s"
proof -
  have "errors_children (foldl (\<lambda>s m. setError m s) s messages) =
     errors_children s @ map createError messages"
    by (induction messages arbitrary: s) (simp_all add: setError_def)
  then show ?thesis
    by (simp add: setError_def clearErrors_def)
qed

text \<open>
  Claim C10: \<^verbatim>\<open>remove()\<close> on a wrapper just constructed throws a TypeError, the read
  of \<^verbatim>\<open>remove\<close> from the undefined \<^verbatim>\<open>self.widget\<close>, and changes nothing.
\<close>

theorem remove_unmounted_throws:
  assumes "SemanticStructure H f dw = Inr s"
  shows "remove_field s = Inl (TypeError (CannotReadProperty ''remove''), s)"
  using SemanticStructure_Inr [OF assms] by (auto simp: remove_field_def)

text \<open>Claim C10 at sample descriptors.\<close>

theorem remove_unmounted_throws_witness:
  "\<exists>s. SemanticStructure ex_registry (ex_field Undefined Undefined) ex_default = Inr s \<and>
       remove_field s = Inl (TypeError (CannotReadProperty ''remove''), s)"
proof -
  obtain s where s: "SemanticStructure ex_registry (ex_field Undefined Undefined) ex_default = Inr s"
    by (simp add: ctor_defs ex_defs)
  from remove_unmounted_throws [OF s] s show ?thesis by blast
qed

end
